theory Spec2Isabelle
  imports Main
begin

section \<open>Python values, exceptions and the HTTP collaborator\<close>

text \<open>
  The module \<^verbatim>\<open>py2neo/rest.py\<close> is a thin REST client: a \<^verbatim>\<open>Resource\<close> holds a URI, a
  content type, an HTTP client handle and a lazily fetched index. Python is dynamically
  typed, so the values that flow through the code (URIs, header values, decoded JSON,
  \<^verbatim>\<open>None\<close>) are one datatype. A float is kept as its literal text: nothing here computes
  with it. A dictionary decoded from JSON has string keys and is an association list
  whose first binding of a key is the one the dictionary holds.
\<close>

datatype pyval =
    PNone
  | PBool bool
  | PInt int
  | PFloat string
  | PStr string
  | PList "pyval list"
  | PDict "(string \<times> pyval) list"

text \<open>
  The exceptions the module raises or lets through. \<open>TransportError\<close> stands for whatever
  the HTTP client raises when no response is obtained; \<open>AttributeError\<close> is Python's answer
  to reading an attribute that was never assigned; \<open>RecursionError\<close> is what the interpreter
  raises when a call would nest deeper than its recursion limit allows.
\<close>

datatype error =
    NotImplementedError string
  | ValueError pyval
  | LookupError pyval
  | KeyError pyval
  | SystemError pyval
  | TypeError
  | AttributeError
  | TransportError
  | RecursionError

text \<open>
  A response object of the HTTP client, as the module reads it: \<^verbatim>\<open>response.status_code\<close>,
  \<^verbatim>\<open>response.headers\<close>, \<^verbatim>\<open>response[key]\<close> (the field \<open>item\<close>), \<^verbatim>\<open>response.content_length\<close>,
  \<^verbatim>\<open>response.message_complete\<close> as it stands when the response is handed over, and the
  body that \<^verbatim>\<open>response.read()\<close> returns. The headers are the pairs of name and value in
  the order the response carries them; a name may come more than once. What
  \<^verbatim>\<open>response[key]\<close> yields for a key is the client library's business (a value, or an
  exception: the library raises \<^verbatim>\<open>KeyError\<close> for a header the response does not carry), so
  it is taken as given.
\<close>

record response =
  status_code :: int
  headers :: "(string \<times> string) list"
  item :: "string \<Rightarrow> error + pyval"
  content_length :: "int option"
  message_complete :: bool
  body :: string

text \<open>
  The network is a script: the \<open>n\<close>-th call of \<^verbatim>\<open>self._http.request\<close> is answered by
  \<open>srv n\<close>, a response or an exception. The world counts the requests served and keeps
  the trace of what the module did to the client: requests, reads of a response body and
  releases of a response's connection. A response is identified by its position in the
  script.
\<close>

datatype event =
    Request string pyval "string option" "(string \<times> string) list"
  | Read nat
  | Release nat

record world =
  served :: nat
  trace :: "event list"

definition http_request ::
  "(nat \<Rightarrow> error + response) \<Rightarrow> string \<Rightarrow> pyval \<Rightarrow> string option \<Rightarrow> (string \<times> string) list
     \<Rightarrow> world \<Rightarrow> (error + nat \<times> response) \<times> world" where
  "http_request srv method uri data request_headers w =
     (let n = served w;
          w' = w\<lparr>served := Suc n, trace := trace w @ [Request method uri data request_headers]\<rparr>
      in case srv n of
           Inl e \<Rightarrow> (Inl e, w')
         | Inr response \<Rightarrow> (Inr (n, response), w'))"

definition read :: "nat \<Rightarrow> world \<Rightarrow> world" where
  "read rid w = w\<lparr>trace := trace w @ [Read rid]\<rparr>"

definition release :: "nat \<Rightarrow> world \<Rightarrow> world" where
  "release rid w = w\<lparr>trace := trace w @ [Release rid]\<rparr>"

text \<open>
  \<^verbatim>\<open>response.message_complete\<close> at a later moment: the body was complete from the start,
  or it has been read since.
\<close>

definition is_complete :: "nat \<Rightarrow> response \<Rightarrow> world \<Rightarrow> bool" where
  "is_complete rid response w = (message_complete response \<or> Read rid \<in> set (trace w))"

section \<open>The resource\<close>

datatype client = HTTPClient pyval "(string \<times> pyval) list"

record resource =
  self_uri :: pyval
  self_base_uri :: pyval
  self_relative_uri :: pyval
  self_content_type :: string
  self_http :: client
  self_index :: pyval
  self_response_headers :: "(string \<times> string) list option"

definition SUPPORTED_CONTENT_TYPES :: "string list" where
  "SUPPORTED_CONTENT_TYPES = [''application/json'']"

fun dict_set :: "'k \<Rightarrow> 'v \<Rightarrow> ('k \<times> 'v) list \<Rightarrow> ('k \<times> 'v) list" where
  "dict_set k v [] = [(k, v)]"
| "dict_set k v (p # ps) = (if fst p = k then (k, v) # ps else p # dict_set k v ps)"

definition dict_update :: "('k \<times> 'v) list \<Rightarrow> ('k \<times> 'v) list \<Rightarrow> ('k \<times> 'v) list" where
  "dict_update d other = fold (\<lambda>p. dict_set (fst p) (snd p)) other d"

text \<open>
  Python's \<^verbatim>\<open>dict(pairs)\<close>: the pairs are stored one after the other, so every key occurs
  once and the last pair of a key gives its value.
\<close>

definition dict :: "('k \<times> 'v) list \<Rightarrow> ('k \<times> 'v) list" where
  "dict pairs = dict_update [] pairs"

text \<open>
  \<^verbatim>\<open>Resource.__init__(uri, content_type, index, http, **http_params)\<close>. The content type is
  checked first. The \<^verbatim>\<open>http\<close> argument is an object that Python counts as false
  (\<^verbatim>\<open>None\<close>, the default, is one) or an object that counts as true, the client handle to
  reuse; \<^verbatim>\<open>http or HTTPClient.from_url(self._uri, **params)\<close> keeps the second and replaces
  the first by a client built from the URI. \<^verbatim>\<open>HTTPClient.from_url\<close> belongs to the HTTP
  library and may raise (a URI it cannot parse, a keyword it does not know), so it is a
  parameter that yields a client or an exception.
\<close>

datatype http_argument = Falsy | Truthy client

definition Resource_init ::
  "(pyval \<Rightarrow> (string \<times> pyval) list \<Rightarrow> error + client) \<Rightarrow> pyval \<Rightarrow> string \<Rightarrow> pyval
     \<Rightarrow> http_argument \<Rightarrow> (string \<times> pyval) list \<Rightarrow> error + resource" where
  "Resource_init from_url uri content_type index http http_params =
     (if content_type \<notin> set SUPPORTED_CONTENT_TYPES
      then Inl (NotImplementedError (''Content type '' @ content_type @ '' not supported''))
      else
        (let params = dict_update
               (dict [(''connection_timeout'', PInt 20), (''network_timeout'', PInt 300),
                      (''disable_ipv6'', PBool True)]) http_params
         in case (case http of Truthy c \<Rightarrow> Inr c | Falsy \<Rightarrow> from_url uri params) of
              Inl e \<Rightarrow> Inl e
            | Inr c \<Rightarrow>
                Inr \<lparr>self_uri = uri, self_base_uri = PNone, self_relative_uri = PNone,
                     self_content_type = content_type, self_http = c,
                     self_index = index, self_response_headers = None\<rparr>))"

definition get_request_headers :: "resource \<Rightarrow> string list \<Rightarrow> (string \<times> string) list" where
  "get_request_headers self keys =
     dict (map (\<lambda>key. (key, self_content_type self))
       (filter (\<lambda>key. key \<in> set [''Accept'', ''Content-Type'']) keys))"

section \<open>The request dispatcher\<close>

text \<open>
  How the \<^verbatim>\<open>if\<close>/\<^verbatim>\<open>elif\<close> chain inside the \<^verbatim>\<open>try\<close> block of \<^verbatim>\<open>_request\<close> ends: with a
  \<^verbatim>\<open>return\<close> of a value, with a \<^verbatim>\<open>raise\<close>, with the tail call
  \<^verbatim>\<open>return self._request('GET', response['location'])\<close>, or by falling through to the
  statements after the chain.
\<close>

datatype flow = Return pyval | Raise error | Redirect pyval | FallThrough

text \<open>
  \<^verbatim>\<open>json.load(response)\<close> reads the body off the response and decodes it; the decoder
  \<open>loads\<close> is the JSON codec, a parameter.
\<close>

definition json_load :: "(string \<Rightarrow> error + pyval) \<Rightarrow> nat \<Rightarrow> response \<Rightarrow> world \<Rightarrow> flow \<times> world" where
  "json_load loads rid response w =
     (case loads (body response) of
        Inl e \<Rightarrow> (Raise e, read rid w)
      | Inr v \<Rightarrow> (Return v, read rid w))"

definition truthy :: "int option \<Rightarrow> bool" where
  "truthy n = (case n of None \<Rightarrow> False | Some k \<Rightarrow> k \<noteq> 0)"

definition branches ::
  "(string \<Rightarrow> error + pyval) \<Rightarrow> pyval \<Rightarrow> nat \<Rightarrow> response \<Rightarrow> world \<Rightarrow> flow \<times> world" where
  "branches loads uri rid response w =
     (if status_code response = 200 then
        (if truthy (content_length response) then json_load loads rid response w
         else case item response ''transfer-encoding'' of
                Inl e \<Rightarrow> (Raise e, w)
              | Inr te \<Rightarrow>
                  if te = PStr ''chunked'' then json_load loads rid response w
                  else (Return PNone, w))
      else if status_code response = 201 then
        (case item response ''location'' of
           Inl e \<Rightarrow> (Raise e, w)
         | Inr v \<Rightarrow> (Return v, w))
      else if status_code response = 204 then (Return PNone, w)
      else if status_code response = 302 then
        (let w' = (if \<not> is_complete rid response w then read rid w else w)
         in case item response ''location'' of
              Inl e \<Rightarrow> (Raise e, w')
            | Inr v \<Rightarrow> (Redirect v, w'))
      else if status_code response = 400 then
        (Raise (ValueError (PStr (body response))), read rid w)
      else if status_code response = 404 then (Raise (LookupError uri), w)
      else if status_code response = 409 then (Raise (SystemError uri), w)
      else (Raise (SystemError (PStr (body response))), read rid w))"

text \<open>
  \<^verbatim>\<open>_request(method, uri, data)\<close>. The request headers are built, the request is issued,
  \<^verbatim>\<open>dict(response.headers)\<close> is stored on the resource, the chain of branches runs, and the
  \<^verbatim>\<open>finally\<close> clause releases the response whatever happened. The drain after the chain
  (\<^verbatim>\<open>if not response.message_complete: response.read()\<close>) runs only when the chain falls
  through. A redirect is followed by a recursive call. The text of the function sets no
  bound to that recursion: \<open>request\<close> is the function as its text reads, on an interpreter
  that lets calls nest without limit, where following redirects may go on forever and
  not returning is the value \<open>None\<close>.
\<close>

partial_function (option) request ::
  "(string \<Rightarrow> error + pyval) \<Rightarrow> (nat \<Rightarrow> error + response) \<Rightarrow> string \<Rightarrow> pyval \<Rightarrow> string option
     \<Rightarrow> resource \<Rightarrow> world \<Rightarrow> ((error + pyval) \<times> resource \<times> world) option" where
  "request loads srv method uri data self w =
     (let request_headers =
            (if data \<noteq> None then get_request_headers self [''Accept'', ''Content-Type'']
             else get_request_headers self [''Accept''])
      in case http_request srv method uri data request_headers w of
           (Inl e, w1) \<Rightarrow> Some (Inl e, self, w1)
         | (Inr (rid, response), w1) \<Rightarrow>
             (let self1 = self\<lparr>self_response_headers := Some (dict (headers response))\<rparr>
              in case branches loads uri rid response w1 of
                   (Return v, w2) \<Rightarrow> Some (Inr v, self1, release rid w2)
                 | (Raise e, w2) \<Rightarrow> Some (Inl e, self1, release rid w2)
                 | (Redirect location, w2) \<Rightarrow>
                     Option.bind (request loads srv ''GET'' location None self1 w2)
                       (\<lambda>(res, self2, w3). Some (res, self2, release rid w3))
                 | (FallThrough, w2) \<Rightarrow>
                     Some (Inr PNone, self1,
                           release rid (if \<not> is_complete rid response w2 then read rid w2 else w2))))"

declare request.simps [code]

text \<open>
  The same function on the interpreter as it is: calls nest only as deep as the
  recursion limit allows. \<open>frames\<close> is the number of further nested calls of
  \<^verbatim>\<open>_request\<close> that the interpreter accepts below the current one (the calls a single
  \<^verbatim>\<open>_request\<close> makes to the client and the decoder are taken to fit). When none is left,
  the call \<^verbatim>\<open>self._request('GET', response['location'])\<close> of the redirect branch raises
  \<^verbatim>\<open>RecursionError\<close> instead of running, and the \<^verbatim>\<open>finally\<close> clauses on the way out
  release the responses. Apart from that the body is the one of \<open>request\<close>. This function
  always returns; the verbs and the lookup below are built on it.
\<close>

fun request_within ::
  "nat \<Rightarrow> (string \<Rightarrow> error + pyval) \<Rightarrow> (nat \<Rightarrow> error + response) \<Rightarrow> string \<Rightarrow> pyval
     \<Rightarrow> string option \<Rightarrow> resource \<Rightarrow> world \<Rightarrow> (error + pyval) \<times> resource \<times> world" where
  "request_within frames loads srv method uri data self w =
     (let request_headers =
            (if data \<noteq> None then get_request_headers self [''Accept'', ''Content-Type'']
             else get_request_headers self [''Accept''])
      in case http_request srv method uri data request_headers w of
           (Inl e, w1) \<Rightarrow> (Inl e, self, w1)
         | (Inr (rid, response), w1) \<Rightarrow>
             (let self1 = self\<lparr>self_response_headers := Some (dict (headers response))\<rparr>
              in case branches loads uri rid response w1 of
                   (Return v, w2) \<Rightarrow> (Inr v, self1, release rid w2)
                 | (Raise e, w2) \<Rightarrow> (Inl e, self1, release rid w2)
                 | (Redirect location, w2) \<Rightarrow>
                     (case frames of
                        0 \<Rightarrow> (Inl RecursionError, self1, release rid w2)
                      | Suc n \<Rightarrow>
                          (case request_within n loads srv ''GET'' location None self1 w2 of
                             (res, self2, w3) \<Rightarrow> (res, self2, release rid w3)))
                 | (FallThrough, w2) \<Rightarrow>
                     (Inr PNone, self1,
                      release rid (if \<not> is_complete rid response w2 then read rid w2 else w2))))"

declare request_within.simps [simp del]

text \<open>The verbs \<^verbatim>\<open>_get\<close>, \<^verbatim>\<open>_post\<close>, \<^verbatim>\<open>_put\<close> and \<^verbatim>\<open>_delete\<close>; \<open>dumps\<close> is the JSON encoder.\<close>

definition get ::
  "nat \<Rightarrow> (string \<Rightarrow> error + pyval) \<Rightarrow> (nat \<Rightarrow> error + response) \<Rightarrow> pyval
     \<Rightarrow> resource \<Rightarrow> world \<Rightarrow> (error + pyval) \<times> resource \<times> world" where
  "get frames loads srv uri self w = request_within frames loads srv ''GET'' uri None self w"

definition post ::
  "nat \<Rightarrow> (pyval \<Rightarrow> string) \<Rightarrow> (string \<Rightarrow> error + pyval) \<Rightarrow> (nat \<Rightarrow> error + response) \<Rightarrow> pyval
     \<Rightarrow> pyval \<Rightarrow> resource \<Rightarrow> world \<Rightarrow> (error + pyval) \<times> resource \<times> world" where
  "post frames dumps loads srv uri data self w =
     request_within frames loads srv ''POST'' uri (Some (dumps data)) self w"

definition put ::
  "nat \<Rightarrow> (pyval \<Rightarrow> string) \<Rightarrow> (string \<Rightarrow> error + pyval) \<Rightarrow> (nat \<Rightarrow> error + response) \<Rightarrow> pyval
     \<Rightarrow> pyval \<Rightarrow> resource \<Rightarrow> world \<Rightarrow> (error + pyval) \<times> resource \<times> world" where
  "put frames dumps loads srv uri data self w =
     request_within frames loads srv ''PUT'' uri (Some (dumps data)) self w"

definition delete ::
  "nat \<Rightarrow> (string \<Rightarrow> error + pyval) \<Rightarrow> (nat \<Rightarrow> error + response) \<Rightarrow> pyval
     \<Rightarrow> resource \<Rightarrow> world \<Rightarrow> (error + pyval) \<times> resource \<times> world" where
  "delete frames loads srv uri self w = request_within frames loads srv ''DELETE'' uri None self w"

section \<open>The lazy index lookup\<close>

text \<open>
  Python's \<^verbatim>\<open>key in index\<close> and \<^verbatim>\<open>index[key]\<close> for a string key, on every value the index
  can hold: a dictionary tests its keys, a list its elements, a string its substrings;
  anything else is not iterable. Only a dictionary can be indexed by a string.
\<close>

fun substring :: "string \<Rightarrow> string \<Rightarrow> bool" where
  "substring xs [] = (xs = [])"
| "substring xs (y # ys) = (take (length xs) (y # ys) = xs \<or> substring xs ys)"

definition contains :: "pyval \<Rightarrow> string \<Rightarrow> error + bool" where
  "contains index key =
     (case index of
        PDict kvs \<Rightarrow> Inr (map_of kvs key \<noteq> None)
      | PList xs \<Rightarrow> Inr (PStr key \<in> set xs)
      | PStr s \<Rightarrow> Inr (substring key s)
      | _ \<Rightarrow> Inl TypeError)"

definition getitem :: "pyval \<Rightarrow> string \<Rightarrow> error + pyval" where
  "getitem index key =
     (case index of
        PDict kvs \<Rightarrow> (case map_of kvs key of Some v \<Rightarrow> Inr v | None \<Rightarrow> Inl (KeyError (PStr key)))
      | _ \<Rightarrow> Inl TypeError)"

text \<open>The last four lines of \<^verbatim>\<open>_lookup\<close>: the membership test, then the value or \<^verbatim>\<open>KeyError(key)\<close>.\<close>

definition find_key :: "pyval \<Rightarrow> string \<Rightarrow> error + pyval" where
  "find_key index key =
     (case contains index key of
        Inl e \<Rightarrow> Inl e
      | Inr present \<Rightarrow> if present then getitem index key else Inl (KeyError (PStr key)))"

text \<open>
  \<^verbatim>\<open>_lookup(key)\<close>: when the index is \<^verbatim>\<open>None\<close> it is fetched with a GET against the
  resource's own URI, and an exception of that GET leaves \<^verbatim>\<open>_lookup\<close> at once. Then the
  stored response headers, the dictionary that \<^verbatim>\<open>_request\<close> left, are consulted for the
  key \<^verbatim>\<open>content-location\<close>. \<open>frames\<close> is the number of nested calls left to the
  dispatcher.
\<close>

definition lookup ::
  "nat \<Rightarrow> (string \<Rightarrow> error + pyval) \<Rightarrow> (nat \<Rightarrow> error + response) \<Rightarrow> string
     \<Rightarrow> resource \<Rightarrow> world \<Rightarrow> (error + pyval) \<times> resource \<times> world" where
  "lookup frames loads srv key self w =
     (if self_index self = PNone then
        (case get frames loads srv (self_uri self) self w of
           (Inl e, self1, w1) \<Rightarrow> (Inl e, self1, w1)
         | (Inr v, self1, w1) \<Rightarrow>
             (let self2 = self1\<lparr>self_index := v\<rparr>
              in case self_response_headers self2 of
                   None \<Rightarrow> (Inl AttributeError, self2, w1)
                 | Some hs \<Rightarrow>
                     (let self3 =
                            (if hs \<noteq> [] then
                               (case map_of hs ''content-location'' of
                                  Some v' \<Rightarrow> self2\<lparr>self_uri := PStr v'\<rparr>
                                | None \<Rightarrow> self2)
                             else self2)
                      in (find_key (self_index self3) key, self3, w1))))
      else (find_key (self_index self) key, self, w))"

section \<open>Vocabulary of the statements\<close>

text \<open>
  The event a call of \<^verbatim>\<open>_request\<close> logs first, and the world right after the request has
  been handed to the client.
\<close>

definition issued :: "resource \<Rightarrow> string \<Rightarrow> pyval \<Rightarrow> string option \<Rightarrow> event" where
  "issued self method uri data =
     Request method uri data
       (if data \<noteq> None then get_request_headers self [''Accept'', ''Content-Type'']
        else get_request_headers self [''Accept''])"

definition sent :: "resource \<Rightarrow> string \<Rightarrow> pyval \<Rightarrow> string option \<Rightarrow> world \<Rightarrow> world" where
  "sent self method uri data w =
     w\<lparr>served := Suc (served w), trace := trace w @ [issued self method uri data]\<rparr>"

text \<open>
  A request event whose header dictionary has \<^verbatim>\<open>Accept\<close> set to the content type, and
  \<^verbatim>\<open>Content-Type\<close> set to it exactly when a payload goes with the request.
\<close>

fun well_headed :: "string \<Rightarrow> event \<Rightarrow> bool" where
  "well_headed ct (Request method uri data hs) =
     (map_of hs ''Accept'' = Some ct \<and>
      map_of hs ''Content-Type'' = (if data = None then None else Some ct))"
| "well_headed ct (Read rid) = True"
| "well_headed ct (Release rid) = True"

fun is_request :: "event \<Rightarrow> bool" where
  "is_request (Request method uri data hs) = True"
| "is_request (Read rid) = False"
| "is_request (Release rid) = False"


text \<open>
  An answer of the network that makes \<^verbatim>\<open>_request\<close> call itself again: a response with
  status 302 whose \<^verbatim>\<open>location\<close> can be read.
\<close>

definition is_redirect :: "error + response \<Rightarrow> bool" where
  "is_redirect answer =
     (case answer of
        Inl e \<Rightarrow> False
      | Inr response \<Rightarrow>
          status_code response = 302 \<and>
          (case item response ''location'' of Inl e \<Rightarrow> False | Inr v \<Rightarrow> True))"

section \<open>Sample data\<close>

text \<open>
  A resource as \<^verbatim>\<open>Resource("http://svc/")\<close> builds it, an untouched world, a stand-in for
  the JSON decoder that knows four texts, and simulated responses. As in the HTTP
  library, \<^verbatim>\<open>response[key]\<close> of a simulated response raises \<^verbatim>\<open>KeyError\<close> for a header
  the response does not carry. The stand-in for \<^verbatim>\<open>HTTPClient.from_url\<close> builds a client
  from a string and keyword parameters of the library's client; it raises for a URI that
  is not a string, and \<^verbatim>\<open>TypeError\<close>, as Python does for an unexpected keyword argument,
  for any other keyword.
\<close>

definition sample_resource :: resource where
  "sample_resource =
     \<lparr>self_uri = PStr ''http://svc/'', self_base_uri = PNone, self_relative_uri = PNone,
      self_content_type = ''application/json'',
      self_http = HTTPClient (PStr ''http://svc/'')
        [(''connection_timeout'', PInt 20), (''network_timeout'', PInt 300),
         (''disable_ipv6'', PBool True)],
      self_index = PNone, self_response_headers = None\<rparr>"

definition start :: world where
  "start = \<lparr>served = 0, trace = []\<rparr>"

definition sample_index_text :: string where
  "sample_index_text =
     ''{'' @ [CHR 0x22] @ ''node'' @ [CHR 0x22] @ '': '' @ [CHR 0x22] @ ''http://svc/node'' @
     [CHR 0x22] @ ''}''"

definition sample_loads :: "string \<Rightarrow> error + pyval" where
  "sample_loads s =
     (if s = ''{}'' then Inr (PDict [])
      else if s = ''[]'' then Inr (PList [])
      else if s = ''null'' then Inr PNone
      else if s = sample_index_text then Inr (PDict [(''node'', PStr ''http://svc/node'')])
      else Inl (ValueError (PStr ''No JSON object could be decoded'')))"

definition reply :: "int \<Rightarrow> (string \<times> string) list \<Rightarrow> int option \<Rightarrow> string \<Rightarrow> response" where
  "reply code hs len text =
     \<lparr>status_code = code, headers = hs,
      item = (\<lambda>key. case map_of (dict hs) key of
                      Some v \<Rightarrow> Inr (PStr v)
                    | None \<Rightarrow> Inl (KeyError (PStr key))),
      content_length = len, message_complete = False, body = text\<rparr>"

definition sample_from_url :: "pyval \<Rightarrow> (string \<times> pyval) list \<Rightarrow> error + client" where
  "sample_from_url uri params =
     (case uri of
        PStr s \<Rightarrow>
          if list_all (\<lambda>p. fst p \<in> set [''headers'', ''block_size'', ''connection_timeout'',
                 ''network_timeout'', ''disable_ipv6'', ''concurrency'', ''ssl_options'',
                 ''insecure'', ''proxy_host'', ''proxy_port'', ''version'']) params
          then Inr (HTTPClient uri params)
          else Inl TypeError
      | _ \<Rightarrow> Inl AttributeError)"

text \<open>A script given by its first answers; every later request gets \<open>final\<close>.\<close>

fun script :: "response list \<Rightarrow> response \<Rightarrow> nat \<Rightarrow> error + response" where
  "script [] final n = Inr final"
| "script (r # rs) final 0 = Inr r"
| "script (r # rs) final (Suc n) = script rs final n"

section \<open>Dictionaries\<close>

lemma map_of_dict_set: "map_of (dict_set k v d) = (map_of d)(k \<mapsto> v)"
  by (induction d) auto

lemma map_of_dict_update: "map_of (dict_update d other) = map_of d ++ map_of (rev other)"
  unfolding dict_update_def
proof (induction other arbitrary: d)
  case Nil
  show ?case by simp
next
  case (Cons p ps)
  show ?case
    by (simp add: Cons.IH map_of_dict_set map_add_def fun_eq_iff split: option.splits)
qed

text \<open>The last pair of a name decides.\<close>

lemma map_of_dict: "map_of (dict pairs) = map_of (rev pairs)"
  by (simp add: dict_def map_of_dict_update)

lemma dict_Nil_iff: "dict pairs = [] \<longleftrightarrow> pairs = []"
proof -
  have "dict_set k v d \<noteq> []" for k :: 'a and v :: 'b and d
    by (cases d) auto
  moreover have "fold (\<lambda>p. dict_set (fst p) (snd p)) ps d \<noteq> []" if "d \<noteq> []"
    for ps :: "('a \<times> 'b) list" and d
    using that calculation by (induction ps arbitrary: d) auto
  ultimately show ?thesis
    by (cases pairs) (auto simp: dict_def dict_update_def)
qed

lemma request_headers_built:
  "get_request_headers self [''Accept'', ''Content-Type''] =
     [(''Accept'', self_content_type self), (''Content-Type'', self_content_type self)]"
  "get_request_headers self [''Accept''] = [(''Accept'', self_content_type self)]"
  by (simp_all add: get_request_headers_def dict_def dict_update_def)

section \<open>Unfolding the dispatcher\<close>

lemma request_no_response:
  assumes "srv (served w) = Inl e"
  shows "request loads srv method uri data self w = Some (Inl e, self, sent self method uri data w)"
  using assms
  by (subst request.simps) (simp add: http_request_def sent_def issued_def)

lemma request_response:
  assumes "srv (served w) = Inr response"
  shows "request loads srv method uri data self w =
     (case branches loads uri (served w) response (sent self method uri data w) of
        (Return v, w2) \<Rightarrow>
          Some (Inr v, self\<lparr>self_response_headers := Some (dict (headers response))\<rparr>, release (served w) w2)
      | (Raise e, w2) \<Rightarrow>
          Some (Inl e, self\<lparr>self_response_headers := Some (dict (headers response))\<rparr>, release (served w) w2)
      | (Redirect location, w2) \<Rightarrow>
          Option.bind
            (request loads srv ''GET'' location None
               (self\<lparr>self_response_headers := Some (dict (headers response))\<rparr>) w2)
            (\<lambda>(res, self2, w3). Some (res, self2, release (served w) w3))
      | (FallThrough, w2) \<Rightarrow>
          Some (Inr PNone, self\<lparr>self_response_headers := Some (dict (headers response))\<rparr>,
                release (served w)
                  (if \<not> is_complete (served w) response w2 then read (served w) w2 else w2)))"
  using assms
  by (subst request.simps) (simp add: http_request_def sent_def issued_def Let_def)

text \<open>
  Every branch of the chain ends in a \<^verbatim>\<open>return\<close> or a \<^verbatim>\<open>raise\<close>: the statements after
  the chain are never reached.
\<close>

lemma branches_never_fall_through: "fst (branches loads uri rid response w) \<noteq> FallThrough"
  by (simp add: branches_def json_load_def Let_def split: sum.splits)

lemma branches_served: "branches loads uri rid r w1 = (fl, w2) \<Longrightarrow> served w2 = served w1"
  by (auto simp: branches_def json_load_def read_def Let_def split: if_splits sum.splits)

lemma branches_redirect:
  "branches loads uri rid r w1 = (Redirect loc, w2) \<Longrightarrow>
     status_code r = 302 \<and> item r ''location'' = Inr loc"
  by (auto simp: branches_def json_load_def Let_def split: if_splits sum.splits)

lemma branches_trace:
  "branches loads uri rid r w1 = (fl, w2) \<Longrightarrow>
     served w2 = served w1 \<and> (\<exists>es. trace w2 = trace w1 @ es \<and> list_all (well_headed ct) es)"
  by (auto simp: branches_def json_load_def read_def Let_def is_complete_def
           split: if_splits sum.splits)

section \<open>Redirect following without a limit\<close>

text \<open>
  On an interpreter that lets calls nest without limit, the dispatcher returns exactly
  when some answer from the current one on is not a redirect. That it returns then is
  proved by induction on the position of that answer; the converse, the dispatcher
  being a partial function, by the induction rule of its fixed point.
\<close>

lemma request_returns:
  "\<not> is_redirect (srv (served w + k)) \<Longrightarrow> \<exists>y. request loads srv meth uri data self w = Some y"
proof (induction k arbitrary: meth uri data self w)
  case 0
  show ?case
  proof (cases "srv (served w)")
    case (Inl e)
    then show ?thesis by (simp add: request_no_response)
  next
    case (Inr r)
    obtain fl w2 where b: "branches loads uri (served w) r (sent self meth uri data w) = (fl, w2)"
      by (cases "branches loads uri (served w) r (sent self meth uri data w)")
    have "fl \<noteq> Redirect loc" for loc
      using 0 Inr branches_redirect[of loads uri "served w" r _ loc w2] b
      by (auto simp: is_redirect_def)
    then show ?thesis
      using Inr b by (cases fl) (auto simp: request_response)
  qed
next
  case (Suc k)
  show ?case
  proof (cases "srv (served w)")
    case (Inl e)
    then show ?thesis by (simp add: request_no_response)
  next
    case (Inr r)
    obtain fl w2 where b: "branches loads uri (served w) r (sent self meth uri data w) = (fl, w2)"
      by (cases "branches loads uri (served w) r (sent self meth uri data w)")
    show ?thesis
    proof (cases fl)
      case (Redirect loc)
      have s: "served w2 = Suc (served w)"
        using branches_served[OF b] by (simp add: sent_def)
      have "\<not> is_redirect (srv (served w2 + k))"
        using Suc.prems s by simp
      from Suc.IH[OF this] obtain y where
        "request loads srv ''GET'' loc None (self\<lparr>self_response_headers := Some (dict (headers r))\<rparr>) w2 = Some y"
        by blast
      then show ?thesis
        using Inr b Redirect by (simp add: request_response split: prod.splits)
    qed (use Inr b in \<open>simp_all add: request_response\<close>)
  qed
qed

lemma request_returned:
  assumes "request loads srv method uri data self w = Some y"
  shows "\<exists>k. \<not> is_redirect (srv (served w + k))"
proof (rule request.raw_induct[where P = "\<lambda>loads srv method uri data self w y.
    \<exists>k. \<not> is_redirect (srv (served w + k))", OF _ assms], goal_cases)
  case (1 request loads srv m uri data self w y)
  show ?case
  proof (cases "is_redirect (srv (served w))")
    case False
    then show ?thesis by (intro exI[of _ 0]) simp
  next
    case True
    then obtain r loc where r: "srv (served w) = Inr r" "status_code r = 302" "item r ''location'' = Inr loc"
      by (auto simp: is_redirect_def split: sum.splits)
    from 1(2) r obtain y' w2 self1 where
      "request loads srv ''GET'' loc None self1 w2 = Some y'" "served w2 = Suc (served w)"
      by (auto simp: Let_def http_request_def branches_def read_def
               split: Option.bind_splits if_splits)
    from 1(1)[OF this(1)] this(2) obtain k where "\<not> is_redirect (srv (served w + Suc k))"
      by auto
    then show ?thesis by blast
  qed
qed

section \<open>The dispatcher within the recursion limit\<close>

lemma request_within_no_response:
  assumes "srv (served w) = Inl e"
  shows "request_within frames loads srv method uri data self w =
     (Inl e, self, sent self method uri data w)"
  using assms
  by (subst request_within.simps) (simp add: http_request_def sent_def issued_def)

lemma request_within_response:
  assumes "srv (served w) = Inr response"
  shows "request_within frames loads srv method uri data self w =
     (case branches loads uri (served w) response (sent self method uri data w) of
        (Return v, w2) \<Rightarrow>
          (Inr v, self\<lparr>self_response_headers := Some (dict (headers response))\<rparr>, release (served w) w2)
      | (Raise e, w2) \<Rightarrow>
          (Inl e, self\<lparr>self_response_headers := Some (dict (headers response))\<rparr>, release (served w) w2)
      | (Redirect location, w2) \<Rightarrow>
          (case frames of
             0 \<Rightarrow>
               (Inl RecursionError, self\<lparr>self_response_headers := Some (dict (headers response))\<rparr>,
                release (served w) w2)
           | Suc n \<Rightarrow>
               (case request_within n loads srv ''GET'' location None
                       (self\<lparr>self_response_headers := Some (dict (headers response))\<rparr>) w2 of
                  (res, self2, w3) \<Rightarrow> (res, self2, release (served w) w3)))
      | (FallThrough, w2) \<Rightarrow>
          (Inr PNone, self\<lparr>self_response_headers := Some (dict (headers response))\<rparr>,
           release (served w)
             (if \<not> is_complete (served w) response w2 then read (served w) w2 else w2)))"
  using assms
  by (subst request_within.simps) (simp add: http_request_def sent_def issued_def Let_def)

text \<open>A call that does not follow a redirect does what the unbounded function does.\<close>

lemma request_within_final:
  assumes "\<not> is_redirect (srv (served w))"
  shows "request loads srv meth uri data self w =
     Some (request_within frames loads srv meth uri data self w)"
proof (cases "srv (served w)")
  case (Inl e)
  then show ?thesis
    by (simp add: request_no_response request_within_no_response)
next
  case (Inr r)
  obtain fl w2 where b: "branches loads uri (served w) r (sent self meth uri data w) = (fl, w2)"
    by (cases "branches loads uri (served w) r (sent self meth uri data w)")
  have "fl \<noteq> Redirect loc" for loc
    using assms Inr branches_redirect[of loads uri "served w" r _ loc w2] b
    by (auto simp: is_redirect_def)
  then show ?thesis
    unfolding request_response[of srv w r, OF Inr] request_within_response[of srv w r, OF Inr] b
    by (cases fl) auto
qed

lemma request_within_agrees:
  "\<exists>k\<le>frames. \<not> is_redirect (srv (served w + k)) \<Longrightarrow>
     request loads srv meth uri data self w =
       Some (request_within frames loads srv meth uri data self w)"
proof (induction frames arbitrary: meth uri data self w)
  case 0
  then show ?case
    by (simp add: request_within_final)
next
  case (Suc n)
  show ?case
  proof (cases "is_redirect (srv (served w))")
    case False
    then show ?thesis
      by (rule request_within_final)
  next
    case True
    then obtain r loc where r: "srv (served w) = Inr r" "status_code r = 302"
      "item r ''location'' = Inr loc"
      by (auto simp: is_redirect_def split: sum.splits)
    obtain fl w2 where b: "branches loads uri (served w) r (sent self meth uri data w) = (fl, w2)"
      by (cases "branches loads uri (served w) r (sent self meth uri data w)")
    have fl: "fl = Redirect loc"
      using b r by (auto simp: branches_def Let_def)
    have s: "served w2 = Suc (served w)"
      using branches_served[OF b] by (simp add: sent_def)
    from Suc.prems True obtain k where k: "k \<le> Suc n" "\<not> is_redirect (srv (served w + k))"
      by blast
    with True have "k \<noteq> 0"
      by (cases k) auto
    with k have "k - 1 \<le> n" "\<not> is_redirect (srv (served w2 + (k - 1)))"
      using s by auto
    then have "\<exists>k\<le>n. \<not> is_redirect (srv (served w2 + k))"
      by blast
    note ih = Suc.IH[OF this]
    show ?thesis
      unfolding request_response[of srv w r, OF r(1)] request_within_response[of srv w r, OF r(1)] b fl
      by (simp add: ih split: prod.splits)
  qed
qed

lemma request_within_exhausted:
  "\<forall>k\<le>frames. is_redirect (srv (served w + k)) \<Longrightarrow>
     fst (request_within frames loads srv meth uri data self w) = Inl RecursionError \<and>
     served (snd (snd (request_within frames loads srv meth uri data self w))) =
       served w + frames + 1"
proof (induction frames arbitrary: meth uri data self w)
  case 0
  then obtain r loc where r: "srv (served w) = Inr r" "status_code r = 302"
    "item r ''location'' = Inr loc"
    by (auto simp: is_redirect_def split: sum.splits)
  show ?case
    unfolding request_within_response[of srv w r, OF r(1)]
    using r by (simp add: branches_def Let_def release_def read_def sent_def)
next
  case (Suc n)
  from Suc.prems have "is_redirect (srv (served w + 0))"
    by blast
  then obtain r loc where r: "srv (served w) = Inr r" "status_code r = 302"
    "item r ''location'' = Inr loc"
    by (auto simp: is_redirect_def split: sum.splits)
  obtain fl w2 where b: "branches loads uri (served w) r (sent self meth uri data w) = (fl, w2)"
    by (cases "branches loads uri (served w) r (sent self meth uri data w)")
  have fl: "fl = Redirect loc"
    using b r by (auto simp: branches_def Let_def)
  have s: "served w2 = Suc (served w)"
    using branches_served[OF b] by (simp add: sent_def)
  have "\<forall>k\<le>n. is_redirect (srv (served w2 + k))"
  proof (intro allI impI)
    fix k assume "k \<le> n"
    then have "is_redirect (srv (served w + Suc k))"
      using Suc.prems by auto
    then show "is_redirect (srv (served w2 + k))"
      using s by simp
  qed
  note ih = Suc.IH[OF this, of "''GET''" loc None
      "self\<lparr>self_response_headers := Some (dict (headers r))\<rparr>"]
  show ?case
    unfolding request_within_response[of srv w r, OF r(1)] b fl
    using ih s by (auto simp: release_def split: prod.splits)
qed


text \<open>
  Every result of the bounded dispatcher is reached in one of five ways: no response, a
  branch that returns, a branch that raises, a redirect with no frame left, or a
  redirect whose follow-up call gave the result.
\<close>

lemma request_within_cases:
  assumes "\<And>meth uri data self w e.
      srv (served w) = Inl e \<Longrightarrow> P meth uri data self w (Inl e, self, sent self meth uri data w)"
    and "\<And>meth uri data self w r v w2.
      srv (served w) = Inr r \<Longrightarrow>
      branches loads uri (served w) r (sent self meth uri data w) = (Return v, w2) \<Longrightarrow>
      P meth uri data self w
        (Inr v, self\<lparr>self_response_headers := Some (dict (headers r))\<rparr>, release (served w) w2)"
    and "\<And>meth uri data self w r e w2.
      srv (served w) = Inr r \<Longrightarrow>
      branches loads uri (served w) r (sent self meth uri data w) = (Raise e, w2) \<Longrightarrow>
      P meth uri data self w
        (Inl e, self\<lparr>self_response_headers := Some (dict (headers r))\<rparr>, release (served w) w2)"
    and "\<And>meth uri data self w r loc w2.
      srv (served w) = Inr r \<Longrightarrow>
      branches loads uri (served w) r (sent self meth uri data w) = (Redirect loc, w2) \<Longrightarrow>
      P meth uri data self w
        (Inl RecursionError, self\<lparr>self_response_headers := Some (dict (headers r))\<rparr>,
         release (served w) w2)"
    and "\<And>meth uri data self w r loc w2 res self2 w3.
      srv (served w) = Inr r \<Longrightarrow>
      branches loads uri (served w) r (sent self meth uri data w) = (Redirect loc, w2) \<Longrightarrow>
      P ''GET'' loc None (self\<lparr>self_response_headers := Some (dict (headers r))\<rparr>) w2
        (res, self2, w3) \<Longrightarrow>
      P meth uri data self w (res, self2, release (served w) w3)"
  shows "P meth uri data self w (request_within frames loads srv meth uri data self w)"
proof (induction frames arbitrary: meth uri data self w)
  case 0
  show ?case
  proof (cases "srv (served w)")
    case (Inl e)
    then show ?thesis
      by (simp add: request_within_no_response assms(1))
  next
    case (Inr r)
    obtain fl w2 where b: "branches loads uri (served w) r (sent self meth uri data w) = (fl, w2)"
      by (cases "branches loads uri (served w) r (sent self meth uri data w)")
    have nf: "fl \<noteq> FallThrough"
      using branches_never_fall_through[of loads uri "served w" r "sent self meth uri data w"] b
      by simp
    show ?thesis
      unfolding request_within_response[of srv w r, OF Inr] b
      using nf assms(2,3,4)[OF Inr] b by (cases fl) simp_all
  qed
next
  case (Suc n)
  show ?case
  proof (cases "srv (served w)")
    case (Inl e)
    then show ?thesis
      by (simp add: request_within_no_response assms(1))
  next
    case (Inr r)
    obtain fl w2 where b: "branches loads uri (served w) r (sent self meth uri data w) = (fl, w2)"
      by (cases "branches loads uri (served w) r (sent self meth uri data w)")
    have nf: "fl \<noteq> FallThrough"
      using branches_never_fall_through[of loads uri "served w" r "sent self meth uri data w"] b
      by simp
    show ?thesis
    proof (cases fl)
      case (Redirect loc)
      obtain res self2 w3 where rec:
        "request_within n loads srv ''GET'' loc None
           (self\<lparr>self_response_headers := Some (dict (headers r))\<rparr>) w2 = (res, self2, w3)"
        by (cases "request_within n loads srv ''GET'' loc None
           (self\<lparr>self_response_headers := Some (dict (headers r))\<rparr>) w2")
      have "P ''GET'' loc None (self\<lparr>self_response_headers := Some (dict (headers r))\<rparr>) w2
         (res, self2, w3)"
        using Suc.IH[of "''GET''" loc None "self\<lparr>self_response_headers := Some (dict (headers r))\<rparr>" w2]
        by (simp add: rec)
      from assms(5)[OF Inr b[unfolded Redirect] this] show ?thesis
        unfolding request_within_response[of srv w r, OF Inr] b Redirect
        by (simp add: rec)
    qed (use nf assms(2,3)[OF Inr] b in \<open>simp_all add: request_within_response[of srv w r, OF Inr]\<close>)
  qed
qed


lemma request_within_trace:
  assumes "request_within frames loads srv meth uri data self w = (res, self', w')"
  shows "served w < served w' \<and>
     (\<exists>es. trace w' = trace w @ issued self meth uri data # es \<and>
           list_all (well_headed (self_content_type self)) es)"
proof -
  note b = branches_trace[where ct = "self_content_type self" for self]
  have "served w < served (snd (snd y)) \<and>
     (\<exists>es. trace (snd (snd y)) = trace w @ issued self meth uri data # es \<and>
           list_all (well_headed (self_content_type self)) es)"
    if "y = request_within frames loads srv meth uri data self w" for y
    unfolding that
  proof (rule request_within_cases[where P = "\<lambda>meth uri data self w y.
        served w < served (snd (snd y)) \<and>
        (\<exists>es. trace (snd (snd y)) = trace w @ issued self meth uri data # es \<and>
           list_all (well_headed (self_content_type self)) es)"], goal_cases)
    case (1 meth uri data self w e)
    show ?case by (simp add: sent_def)
  next
    case (2 meth uri data self w r v w2)
    from b[OF 2(2), of self] show ?case
      by (auto simp: sent_def release_def)
  next
    case (3 meth uri data self w r e w2)
    from b[OF 3(2), of self] show ?case
      by (auto simp: sent_def release_def)
  next
    case (4 meth uri data self w r loc w2)
    from b[OF 4(2), of self] show ?case
      by (auto simp: sent_def release_def)
  next
    case (5 meth uri data self w r loc w2 res self2 w3)
    from b[OF 5(2), of self] 5(3) show ?case
      by (auto simp: sent_def release_def issued_def request_headers_built)
  qed
  from this[of "(res, self', w')"] assms show ?thesis
    by simp
qed

lemma request_within_last_response:
  assumes "request_within frames loads srv meth uri data self w = (Inr v, self', w')"
  shows "\<exists>r. srv (served w' - 1) = Inr r \<and> self_response_headers self' = Some (dict (headers r))"
proof -
  have "served w < served (snd (snd y)) \<and>
     (\<forall>v. fst y = Inr v \<longrightarrow>
        (\<exists>r. srv (served (snd (snd y)) - 1) = Inr r \<and>
             self_response_headers (fst (snd y)) = Some (dict (headers r))))"
    if "y = request_within frames loads srv meth uri data self w" for y
    unfolding that
  proof (rule request_within_cases[where P = "\<lambda>meth uri data self w y.
        served w < served (snd (snd y)) \<and>
        (\<forall>v. fst y = Inr v \<longrightarrow>
          (\<exists>r. srv (served (snd (snd y)) - 1) = Inr r \<and>
             self_response_headers (fst (snd y)) = Some (dict (headers r))))"], goal_cases)
    case (1 meth uri data self w e)
    show ?case by (simp add: sent_def)
  next
    case (2 meth uri data self w r v w2)
    from branches_served[OF 2(2)] 2(1) show ?case
      by (simp add: sent_def release_def)
  next
    case (3 meth uri data self w r e w2)
    from branches_served[OF 3(2)] show ?case
      by (simp add: sent_def release_def)
  next
    case (4 meth uri data self w r loc w2)
    from branches_served[OF 4(2)] show ?case
      by (simp add: sent_def release_def)
  next
    case (5 meth uri data self w r loc w2 res self2 w3)
    from branches_served[OF 5(2)] 5(3) show ?case
      by (auto simp: sent_def release_def)
  qed
  from this[of "(Inr v, self', w')"] assms show ?thesis
    by simp
qed

section \<open>One request or several\<close>

lemma branches_reads:
  "branches loads uri rid r w1 = (fl, w2) \<Longrightarrow>
     \<exists>es. trace w2 = trace w1 @ es \<and> \<not> list_ex is_request es"
  by (auto simp: branches_def json_load_def read_def Let_def split: if_splits sum.splits)

lemma issued_get:
  "issued self ''GET'' uri None = Request ''GET'' uri None [(''Accept'', self_content_type self)]"
  by (simp add: issued_def request_headers_built)

lemma request_single:
  assumes "\<not> is_redirect (srv (served w))"
    and "request loads srv meth uri data self w = Some (res, self', w')"
  shows "served w' = Suc (served w) \<and>
     (\<exists>es. trace w' = trace w @ issued self meth uri data # es \<and> \<not> list_ex is_request es)"
proof (cases "srv (served w)")
  case (Inl e)
  with assms(2) show ?thesis
    by (auto simp: request_no_response sent_def)
next
  case (Inr r)
  obtain fl w2 where b: "branches loads uri (served w) r (sent self meth uri data w) = (fl, w2)"
    by (cases "branches loads uri (served w) r (sent self meth uri data w)")
  from branches_reads[OF b] obtain es where
    es: "trace w2 = trace (sent self meth uri data w) @ es" "\<not> list_ex is_request es"
    by blast
  have s: "served w2 = Suc (served w)"
    using branches_served[OF b] by (simp add: sent_def)
  have nr: "fl \<noteq> Redirect loc" for loc
    using assms(1) Inr branches_redirect[of loads uri "served w" r _ loc w2] b
    by (auto simp: is_redirect_def)
  have nf: "fl \<noteq> FallThrough"
    using branches_never_fall_through[of loads uri "served w" r "sent self meth uri data w"] b
    by simp
  have "served w' = Suc (served w) \<and> trace w' = trace w2 @ [Release (served w)]"
    using assms(2) nr nf s es
    unfolding request_response[of srv w r, OF Inr] b
    by (cases fl) (auto simp: release_def read_def is_complete_def)
  then show ?thesis
    using es by (auto simp: sent_def)
qed

lemma request_within_single:
  assumes "\<not> is_redirect (srv (served w))"
    and "request_within frames loads srv meth uri data self w = (res, self', w')"
  shows "served w' = Suc (served w) \<and>
     (\<exists>es. trace w' = trace w @ issued self meth uri data # es \<and> \<not> list_ex is_request es)"
proof -
  have "request loads srv meth uri data self w = Some (res, self', w')"
    using request_within_final[of srv w loads meth uri data self frames] assms by simp
  from request_single[of srv w loads meth uri data self res self' w', OF assms(1) this]
  show ?thesis .
qed

section \<open>The lookup on a cached index\<close>

lemma lookup_cached:
  "self_index self \<noteq> PNone \<Longrightarrow>
     lookup frames loads srv key self w = (find_key (self_index self) key, self, w)"
  by (simp add: lookup_def)

lemma find_key_absent:
  "contains index key = Inr False \<Longrightarrow> find_key index key = Inl (KeyError (PStr key))"
  by (simp add: find_key_def)

lemma find_key_None: "find_key PNone key = Inl TypeError"
  by (simp add: find_key_def contains_def)

section \<open>Construction\<close>

text \<open>
  Claim C9, amended. For a content type outside the supported set, which holds
  \<^verbatim>\<open>application/json\<close> and nothing else, construction fails with the unsupported content
  type error, \<^verbatim>\<open>NotImplementedError\<close> with its message, whatever the other arguments. For a
  content type of the supported set it succeeds when a client that counts as true is
  given, which it keeps; when none is given it succeeds exactly when
  \<^verbatim>\<open>HTTPClient.from_url\<close>, called with the URI and the default parameters updated by the
  keyword parameters, returns a client, and raises that call's exception when it raises.
  A resource that is built has the URI, the content type and the index it was given.
\<close>

theorem construction_checks_content_type:
  "(content_type \<notin> set SUPPORTED_CONTENT_TYPES \<longrightarrow>
      Resource_init from_url uri content_type index http http_params =
        Inl (NotImplementedError (''Content type '' @ content_type @ '' not supported''))) \<and>
   (content_type \<in> set SUPPORTED_CONTENT_TYPES \<longrightarrow>
      (\<forall>c. http = Truthy c \<longrightarrow>
         (\<exists>r. Resource_init from_url uri content_type index http http_params = Inr r \<and>
              self_uri r = uri \<and> self_content_type r = content_type \<and> self_index r = index \<and>
              self_http r = c)) \<and>
      (http = Falsy \<longrightarrow>
         (case from_url uri
                 (dict_update
                    (dict [(''connection_timeout'', PInt 20), (''network_timeout'', PInt 300),
                           (''disable_ipv6'', PBool True)]) http_params) of
            Inl e \<Rightarrow> Resource_init from_url uri content_type index http http_params = Inl e
          | Inr c \<Rightarrow>
              (\<exists>r. Resource_init from_url uri content_type index http http_params = Inr r \<and>
                   self_uri r = uri \<and> self_content_type r = content_type \<and>
                   self_index r = index \<and> self_http r = c)))) \<and>
   SUPPORTED_CONTENT_TYPES = [''application/json'']"
  by (cases http) (auto simp: Resource_init_def SUPPORTED_CONTENT_TYPES_def Let_def split: sum.splits)

text \<open>
  \<^verbatim>\<open>Resource("http://svc/")\<close> is the sample resource; a client that is handed in is kept;
  \<^verbatim>\<open>text/xml\<close> is refused.
\<close>

lemma sample_from_url_defaults:
  "sample_from_url (PStr ''http://svc/'')
     (dict_update
        (dict [(''connection_timeout'', PInt 20), (''network_timeout'', PInt 300),
               (''disable_ipv6'', PBool True)]) []) =
   Inr (HTTPClient (PStr ''http://svc/'')
          [(''connection_timeout'', PInt 20), (''network_timeout'', PInt 300),
           (''disable_ipv6'', PBool True)])"
  by (simp add: sample_from_url_def dict_def dict_update_def)

theorem construction_witness:
  "Resource_init sample_from_url (PStr ''http://svc/'') ''application/json'' PNone Falsy [] =
     Inr sample_resource \<and>
   (\<exists>r. Resource_init sample_from_url (PStr ''http://svc/'') ''application/json'' PNone
          (Truthy (HTTPClient (PStr ''http://other/'') [])) [] = Inr r \<and>
        self_uri r = PStr ''http://svc/'' \<and> self_http r = HTTPClient (PStr ''http://other/'') []) \<and>
   Resource_init sample_from_url (PStr ''http://svc/'') ''text/xml'' PNone Falsy [] =
     Inl (NotImplementedError (''Content type '' @ ''text/xml'' @ '' not supported''))"
proof -
  have json: "''application/json'' \<in> set SUPPORTED_CONTENT_TYPES"
    by (simp add: SUPPORTED_CONTENT_TYPES_def)
  have xml: "''text/xml'' \<notin> set SUPPORTED_CONTENT_TYPES"
    by (simp add: SUPPORTED_CONTENT_TYPES_def)
  from json
    construction_checks_content_type [of "''application/json''" sample_from_url
      "PStr ''http://svc/''" PNone Falsy "[]"]
  obtain r where r: "Resource_init sample_from_url (PStr ''http://svc/'') ''application/json'' PNone Falsy [] = Inr r"
    "self_uri r = PStr ''http://svc/''" "self_content_type r = ''application/json''"
    "self_index r = PNone"
    "self_http r = HTTPClient (PStr ''http://svc/'')
          [(''connection_timeout'', PInt 20), (''network_timeout'', PInt 300),
           (''disable_ipv6'', PBool True)]"
    unfolding sample_from_url_defaults by auto
  have "self_base_uri r = PNone \<and> self_relative_uri r = PNone \<and> self_response_headers r = None"
    using r(1) by (auto simp: Resource_init_def Let_def split: if_splits sum.splits)
  with r have a: "r = sample_resource"
    by (simp add: sample_resource_def)
  from json xml
    construction_checks_content_type [of "''application/json''" sample_from_url
      "PStr ''http://svc/''" PNone "Truthy (HTTPClient (PStr ''http://other/'') [])" "[]"]
    construction_checks_content_type [of "''text/xml''" sample_from_url
      "PStr ''http://svc/''" PNone Falsy "[]"]
  show ?thesis
    using r(1) unfolding a by blast
qed

text \<open>
  As claim C9 is written, construction succeeds for every supported content type. With
  \<^verbatim>\<open>application/json\<close> and a keyword parameter that the client does not know,
  \<^verbatim>\<open>Resource("http://svc/", bogus=1)\<close>, the call of \<^verbatim>\<open>HTTPClient.from_url\<close> raises
  \<^verbatim>\<open>TypeError\<close> and so does the construction.
\<close>

theorem construction_fails_in_from_url_counterexample:
  "''application/json'' \<in> set SUPPORTED_CONTENT_TYPES \<and>
   Resource_init sample_from_url (PStr ''http://svc/'') ''application/json'' PNone Falsy
     [(''bogus'', PInt 1)] = Inl TypeError"
  by (simp add: Resource_init_def SUPPORTED_CONTENT_TYPES_def sample_from_url_def dict_def
      dict_update_def)

section \<open>Error statuses\<close>

text \<open>
  Claim C3. When the response has status 400 the dispatcher fails with the bad request
  error (\<^verbatim>\<open>ValueError\<close>) carrying the body it read; with status 404, with the not found
  error (\<^verbatim>\<open>LookupError\<close>) carrying the requested URI; with status 409, with the conflict
  error (\<^verbatim>\<open>SystemError\<close>) carrying the requested URI; with any status that no branch
  handles, with the generic error (\<^verbatim>\<open>SystemError\<close>) carrying the body it read. In each
  case the response headers are stored and the response is released.
\<close>

theorem error_statuses:
  assumes "srv (served w) = Inr response"
  shows
  "(status_code response = 400 \<longrightarrow>
      request loads srv method uri data self w =
        Some (Inl (ValueError (PStr (body response))),
              self\<lparr>self_response_headers := Some (dict (headers response))\<rparr>,
              release (served w) (read (served w) (sent self method uri data w)))) \<and>
   (status_code response = 404 \<longrightarrow>
      request loads srv method uri data self w =
        Some (Inl (LookupError uri),
              self\<lparr>self_response_headers := Some (dict (headers response))\<rparr>,
              release (served w) (sent self method uri data w))) \<and>
   (status_code response = 409 \<longrightarrow>
      request loads srv method uri data self w =
        Some (Inl (SystemError uri),
              self\<lparr>self_response_headers := Some (dict (headers response))\<rparr>,
              release (served w) (sent self method uri data w))) \<and>
   (status_code response \<notin> {200, 201, 204, 302, 400, 404, 409} \<longrightarrow>
      request loads srv method uri data self w =
        Some (Inl (SystemError (PStr (body response))),
              self\<lparr>self_response_headers := Some (dict (headers response))\<rparr>,
              release (served w) (read (served w) (sent self method uri data w))))"
  unfolding request_response[of srv w response, OF assms]
  by (simp add: branches_def)

theorem error_statuses_witness:
  "map_option fst (request sample_loads (script [] (reply 400 [] (Some 8) ''bad json''))
      ''POST'' (PStr ''http://svc/node'') (Some ''{'') sample_resource start)
     = Some (Inl (ValueError (PStr ''bad json''))) \<and>
   map_option fst (request sample_loads (script [] (reply 404 [] None ''''))
      ''GET'' (PStr ''http://svc/node/7'') None sample_resource start)
     = Some (Inl (LookupError (PStr ''http://svc/node/7''))) \<and>
   map_option fst (request sample_loads (script [] (reply 409 [] None ''''))
      ''DELETE'' (PStr ''http://svc/node/7'') None sample_resource start)
     = Some (Inl (SystemError (PStr ''http://svc/node/7''))) \<and>
   map_option fst (request sample_loads (script [] (reply 500 [] (Some 5) ''oops!''))
      ''GET'' (PStr ''http://svc/node/7'') None sample_resource start)
     = Some (Inl (SystemError (PStr ''oops!'')))"
proof -
  have s: "script [] r (served start) = Inr r" for r
    by simp
  have c: "status_code (reply 400 [] (Some 8) ''bad json'') = 400"
    "status_code (reply 404 [] None '''') = 404"
    "status_code (reply 409 [] None '''') = 409"
    "status_code (reply 500 [] (Some 5) ''oops!'') \<notin> {200, 201, 204, 302, 400, 404, 409}"
    "body (reply 400 [] (Some 8) ''bad json'') = ''bad json''"
    "body (reply 500 [] (Some 5) ''oops!'') = ''oops!''"
    by (simp_all add: reply_def)
  show ?thesis
    using s c
      error_statuses [of "script [] (reply 400 [] (Some 8) ''bad json'')" start "reply 400 [] (Some 8) ''bad json''" sample_loads
        "''POST''" "PStr ''http://svc/node''" "Some ''{''" sample_resource]
      error_statuses [of "script [] (reply 404 [] None '''')" start "reply 404 [] None ''''" sample_loads
        "''GET''" "PStr ''http://svc/node/7''" None sample_resource]
      error_statuses [of "script [] (reply 409 [] None '''')" start "reply 409 [] None ''''" sample_loads
        "''DELETE''" "PStr ''http://svc/node/7''" None sample_resource]
      error_statuses [of "script [] (reply 500 [] (Some 5) ''oops!'')" start "reply 500 [] (Some 5) ''oops!''" sample_loads
        "''GET''" "PStr ''http://svc/node/7''" None sample_resource]
    by simp
qed

section \<open>Running the dispatcher on sample data\<close>

text \<open>The definitions a run on concrete data unfolds.\<close>

lemmas run_defs = branches_def json_load_def truthy_def
  is_complete_def read_def release_def sent_def issued_def request_headers_built dict_def dict_update_def
  reply_def start_def sample_resource_def sample_loads_def sample_index_text_def Let_def

section \<open>Draining and releasing\<close>

text \<open>
  The \<^verbatim>\<open>finally\<close> clause: whenever a call that obtained a response returns or raises,
  the last thing it did was to release that response.
\<close>

lemma request_releases:
  assumes "srv (served w) = Inr response"
    and "request loads srv meth uri data self w = Some (res, self', w')"
  shows "\<exists>es. trace w' = es @ [Release (served w)]"
proof -
  obtain fl w2 where b: "branches loads uri (served w) response (sent self meth uri data w) = (fl, w2)"
    by (cases "branches loads uri (served w) response (sent self meth uri data w)")
  show ?thesis
    using assms(2) unfolding request_response[of srv w response, OF assms(1)] b
    by (cases fl) (auto simp: release_def split: Option.bind_splits)
qed

text \<open>
  Claim C1 says that on every exit path an unread body is drained before the connection
  is released. The drain stands after the chain of branches, and every branch returns or
  raises (lemma \<open>branches_never_fall_through\<close>), so it never runs: only the branches that read
  the body themselves (a body decoded as JSON, status 400, an unhandled status) or the
  redirect branch leave it drained. Here a \<^verbatim>\<open>POST\<close> is answered with status 201 and a body
  that is not complete; the trace of the call is the request and the release of response
  0, with no read in between. The release itself does happen.
\<close>

theorem created_response_released_undrained:
  "message_complete (reply 201 [(''location'', ''http://svc/node/2'')] (Some 2) ''{}'') = False \<and>
   request sample_loads (script [] (reply 201 [(''location'', ''http://svc/node/2'')] (Some 2) ''{}''))
     ''POST'' (PStr ''http://svc/node'') (Some ''{}'') sample_resource start =
   Some (Inr (PStr ''http://svc/node/2''),
         sample_resource\<lparr>self_response_headers := Some [(''location'', ''http://svc/node/2'')]\<rparr>,
         \<lparr>served = 1,
          trace = [Request ''POST'' (PStr ''http://svc/node'') (Some ''{}'')
                     [(''Accept'', ''application/json''), (''Content-Type'', ''application/json'')],
                   Release 0]\<rparr>)"
  by (simp add: request_response run_defs)

section \<open>Statuses 200, 201 and 204\<close>




section \<open>Redirects\<close>

text \<open>
  Claim C4. When the response has status 302 and \<^verbatim>\<open>response['location']\<close> is \<open>x\<close>, the
  dispatcher stores the response headers, reads the body if it is not complete, calls
  itself with method \<^verbatim>\<open>GET\<close>, URI \<open>x\<close> and no payload, and returns (or raises) what that
  call returns (or raises), releasing the redirecting response after it.
\<close>

theorem redirect_followed:
  assumes "srv (served w) = Inr response"
    and "status_code response = 302"
    and "item response ''location'' = Inr x"
  shows "request loads srv method uri data self w =
     Option.bind
       (request loads srv ''GET'' x None
          (self\<lparr>self_response_headers := Some (dict (headers response))\<rparr>)
          (if \<not> is_complete (served w) response (sent self method uri data w)
           then read (served w) (sent self method uri data w)
           else sent self method uri data w))
       (\<lambda>(res, self2, w3). Some (res, self2, release (served w) w3))"
  unfolding request_response[of srv w response, OF assms(1)]
  using assms(2,3) by (simp add: branches_def Let_def)

text \<open>A \<^verbatim>\<open>POST\<close> redirected once: the body is read, then the \<^verbatim>\<open>GET\<close> goes to the new URI.\<close>

theorem redirect_followed_witness:
  "request sample_loads
     (script [reply 302 [(''location'', ''http://svc/b'')] None ''moved''] (reply 200 [] (Some 2) ''{}''))
     ''POST'' (PStr ''http://svc/a'') (Some ''{}'') sample_resource start =
   Some (Inr (PDict []), sample_resource\<lparr>self_response_headers := Some []\<rparr>,
         \<lparr>served = 2,
          trace = [Request ''POST'' (PStr ''http://svc/a'') (Some ''{}'')
                     [(''Accept'', ''application/json''), (''Content-Type'', ''application/json'')],
                   Read 0,
                   Request ''GET'' (PStr ''http://svc/b'') None [(''Accept'', ''application/json'')],
                   Read 1, Release 1, Release 0]\<rparr>)"
proof -
  let ?moved = "reply 302 [(''location'', ''http://svc/b'')] None ''moved''"
  let ?srv = "script [?moved] (reply 200 [] (Some 2) ''{}'')"
  have a: "?srv (served start) = Inr ?moved"
    by (simp add: start_def)
  have b: "status_code ?moved = 302" "item ?moved ''location'' = Inr (PStr ''http://svc/b'')"
    by (simp_all add: reply_def dict_def dict_update_def)
  show ?thesis
    unfolding redirect_followed [of ?srv start ?moved "PStr ''http://svc/b''", OF a b]
    by (simp add: request_response run_defs)
qed

text \<open>
  Claim C5, amended. The dispatcher returns for every sequence of answers: the bounded
  function is total. When one of the first \<open>frames + 1\<close> answers, counted from the current
  one, is not a redirect, the call returns what following the redirects to their end
  gives, the result of the function run without a limit; finitely many consecutive 302
  responses that fit the limit are covered by this. When all of these answers are
  redirects, and so for a service that answers 302 to every request, the call ends with
  \<^verbatim>\<open>RecursionError\<close> after \<open>frames + 1\<close> requests: no count of redirects and no check for
  cycles stops it earlier.
\<close>

theorem redirects_end_at_recursion_limit:
  "((\<exists>k\<le>frames. \<not> is_redirect (srv (served w + k))) \<longrightarrow>
      request loads srv method uri data self w =
        Some (request_within frames loads srv method uri data self w)) \<and>
   ((\<forall>k\<le>frames. is_redirect (srv (served w + k))) \<longrightarrow>
      fst (request_within frames loads srv method uri data self w) = Inl RecursionError \<and>
      served (snd (snd (request_within frames loads srv method uri data self w))) =
        served w + frames + 1)"
  using request_within_agrees[of frames srv w loads "method" uri data self]
    request_within_exhausted[of frames srv w loads "method" uri data self]
  by blast

text \<open>
  One script that redirects once, run with room for two nested calls, and one that
  redirects for ever, run with room for two.
\<close>

lemma sample_redirects_for_ever:
  "is_redirect (script [] (reply 302 [(''location'', ''http://svc/a'')] None ''moved'') n)"
  by (simp add: is_redirect_def reply_def dict_def dict_update_def)

theorem redirects_end_at_recursion_limit_witness:
  "request sample_loads
     (script [reply 302 [(''location'', ''http://svc/b'')] None ''moved''] (reply 204 [] None ''''))
     ''GET'' (PStr ''http://svc/a'') None sample_resource start =
   Some (request_within 2 sample_loads
     (script [reply 302 [(''location'', ''http://svc/b'')] None ''moved''] (reply 204 [] None ''''))
     ''GET'' (PStr ''http://svc/a'') None sample_resource start) \<and>
   fst (request_within 2 sample_loads
     (script [] (reply 302 [(''location'', ''http://svc/a'')] None ''moved''))
     ''GET'' (PStr ''http://svc/a'') None sample_resource start) = Inl RecursionError \<and>
   served (snd (snd (request_within 2 sample_loads
     (script [] (reply 302 [(''location'', ''http://svc/a'')] None ''moved''))
     ''GET'' (PStr ''http://svc/a'') None sample_resource start))) = 3"
proof -
  let ?moved = "reply 302 [(''location'', ''http://svc/b'')] None ''moved''"
  let ?ends = "script [?moved] (reply 204 [] None '''')"
  let ?loops = "script [] (reply 302 [(''location'', ''http://svc/a'')] None ''moved'')"
  have "\<not> is_redirect (?ends (served start + 1))"
    by (simp add: is_redirect_def reply_def start_def)
  then have a: "\<exists>k\<le>2. \<not> is_redirect (?ends (served start + k))"
    by (intro exI[of _ 1]) simp
  have b: "\<forall>k\<le>2. is_redirect (?loops (served start + k))"
    using sample_redirects_for_ever by blast
  have c: "served start + 2 + 1 = 3"
    by (simp add: start_def)
  from a b
    redirects_end_at_recursion_limit [of 2 ?ends start sample_loads "''GET''" "PStr ''http://svc/a''" None sample_resource]
    redirects_end_at_recursion_limit [of 2 ?loops start sample_loads "''GET''" "PStr ''http://svc/a''" None sample_resource]
  show ?thesis
    unfolding c by blast
qed

text \<open>
  As claim C5 is written, the recursion does not terminate for a service that answers
  302 to every request. With room for 994 nested calls, which is about what an
  interpreter with the default recursion limit of 1000 has left, the call ends with
  \<^verbatim>\<open>RecursionError\<close> after 995 requests.
\<close>

theorem endless_redirects_counterexample:
  "fst (request_within 994 sample_loads
     (script [] (reply 302 [(''location'', ''http://svc/a'')] None ''moved''))
     ''GET'' (PStr ''http://svc/a'') None sample_resource start) = Inl RecursionError \<and>
   served (snd (snd (request_within 994 sample_loads
     (script [] (reply 302 [(''location'', ''http://svc/a'')] None ''moved''))
     ''GET'' (PStr ''http://svc/a'') None sample_resource start))) = 995"
proof -
  let ?loops = "script [] (reply 302 [(''location'', ''http://svc/a'')] None ''moved'')"
  have b: "\<forall>k\<le>994. is_redirect (?loops (served start + k))"
    using sample_redirects_for_ever by blast
  have c: "served start + 994 + 1 = 995"
    by (simp add: start_def)
  from request_within_exhausted[of 994 ?loops start sample_loads "''GET''" "PStr ''http://svc/a''" None
      sample_resource, OF b]
  show ?thesis
    unfolding c .
qed

section \<open>Request headers\<close>

text \<open>
  Claim C8. The first thing a call of the dispatcher does is to issue its request, whose
  headers have \<^verbatim>\<open>Accept\<close> set to the resource's content type and have \<^verbatim>\<open>Content-Type\<close>,
  set to the content type, exactly when a payload is present; every later request of
  the same call (the follow-ups of redirects) has headers of the same form. This holds
  of every call, whatever the network answers and however many nested calls the
  interpreter has room for.
\<close>

theorem request_headers_sent:
  "\<exists>hs es.
     trace (snd (snd (request_within frames loads srv method uri data self w))) =
       trace w @ Request method uri data hs # es \<and>
     map_of hs ''Accept'' = Some (self_content_type self) \<and>
     map_of hs ''Content-Type'' = (if data = None then None else Some (self_content_type self)) \<and>
     list_all (well_headed (self_content_type self)) es"
proof -
  obtain res self' w' where r: "request_within frames loads srv method uri data self w = (res, self', w')"
    by (cases "request_within frames loads srv method uri data self w")
  from request_within_trace[OF r] obtain es where
    es: "trace w' = trace w @ issued self method uri data # es"
      "list_all (well_headed (self_content_type self)) es"
    by auto
  show ?thesis
    unfolding r using es by (auto simp: issued_def request_headers_built)
qed

text \<open>
  A \<^verbatim>\<open>POST\<close> with a payload that is redirected once: the first request carries both
  headers, the follow-up \<^verbatim>\<open>GET\<close>, which has no payload, carries \<^verbatim>\<open>Accept\<close> alone.
\<close>

lemma sample_redirect_run:
  "request_within 5 sample_loads
     (script [reply 302 [(''location'', ''http://svc/b'')] None ''moved''] (reply 204 [] None ''''))
     ''POST'' (PStr ''http://svc/a'') (Some ''{}'') sample_resource start =
   (Inr PNone, sample_resource\<lparr>self_response_headers := Some []\<rparr>,
         \<lparr>served = 2,
          trace = [Request ''POST'' (PStr ''http://svc/a'') (Some ''{}'')
                     [(''Accept'', ''application/json''), (''Content-Type'', ''application/json'')],
                   Read 0,
                   Request ''GET'' (PStr ''http://svc/b'') None [(''Accept'', ''application/json'')],
                   Release 1, Release 0]\<rparr>)"
  by (simp add: request_within_response run_defs)

theorem request_headers_sent_witness:
  "\<exists>hs.
     trace (snd (snd (request_within 5 sample_loads
       (script [reply 302 [(''location'', ''http://svc/b'')] None ''moved''] (reply 204 [] None ''''))
       ''POST'' (PStr ''http://svc/a'') (Some ''{}'') sample_resource start))) =
       [Request ''POST'' (PStr ''http://svc/a'') (Some ''{}'') hs,
        Read 0,
        Request ''GET'' (PStr ''http://svc/b'') None [(''Accept'', ''application/json'')],
        Release 1, Release 0] \<and>
     map_of hs ''Accept'' = Some ''application/json'' \<and>
     map_of hs ''Content-Type'' = Some ''application/json''"
proof -
  from request_headers_sent [of 5 sample_loads
      "script [reply 302 [(''location'', ''http://svc/b'')] None ''moved''] (reply 204 [] None '''')"
      "''POST''" "PStr ''http://svc/a''" "Some ''{}''" sample_resource start]
  obtain hs es where
    "trace (snd (snd (request_within 5 sample_loads
       (script [reply 302 [(''location'', ''http://svc/b'')] None ''moved''] (reply 204 [] None ''''))
       ''POST'' (PStr ''http://svc/a'') (Some ''{}'') sample_resource start))) =
       trace start @ Request ''POST'' (PStr ''http://svc/a'') (Some ''{}'') hs # es"
    "map_of hs ''Accept'' = Some (self_content_type sample_resource)"
    "map_of hs ''Content-Type'' = Some (self_content_type sample_resource)"
    by auto
  then show ?thesis
    unfolding sample_redirect_run by (auto simp: start_def sample_resource_def)
qed

section \<open>The first lookup and the later ones\<close>

lemma lookup_fetch:
  assumes "self_index self = PNone"
    and "get frames loads srv (self_uri self) self w = (fetched, self1, w1)"
  shows "lookup frames loads srv key self w =
     (case fetched of
        Inl e \<Rightarrow> (Inl e, self1, w1)
      | Inr v \<Rightarrow>
          (case self_response_headers self1 of
             None \<Rightarrow> (Inl AttributeError, self1\<lparr>self_index := v\<rparr>, w1)
           | Some hs \<Rightarrow>
               (find_key v key,
                (case map_of hs ''content-location'' of
                   Some x \<Rightarrow> self1\<lparr>self_index := v, self_uri := PStr x\<rparr>
                 | None \<Rightarrow> self1\<lparr>self_index := v\<rparr>),
                w1)))"
  using assms
  by (cases "self_response_headers self1")
     (auto simp: lookup_def Let_def split: sum.splits option.splits)

lemma lookup_fetches_first:
  assumes "self_index self = PNone"
  shows "\<exists>es. trace (snd (snd (lookup frames loads srv key self w))) =
     trace w @ Request ''GET'' (self_uri self) None [(''Accept'', self_content_type self)] # es"
proof -
  obtain fetched self1 w1 where
    g: "get frames loads srv (self_uri self) self w = (fetched, self1, w1)"
    by (cases "get frames loads srv (self_uri self) self w")
  have w1: "snd (snd (lookup frames loads srv key self w)) = w1"
    unfolding lookup_fetch[OF assms g]
    by (auto split: sum.splits option.splits)
  from request_within_trace[OF g[unfolded get_def]] w1 show ?thesis
    by (auto simp: issued_get)
qed

lemma request_within_returns_nothing:
  assumes "srv (served w) = Inr response"
    and "status_code response = 204 \<or>
      (status_code response = 200 \<and> \<not> truthy (content_length response) \<and>
       (\<exists>te. item response ''transfer-encoding'' = Inr te \<and> te \<noteq> PStr ''chunked''))"
  shows "request_within frames loads srv meth uri data self w =
     (Inr PNone, self\<lparr>self_response_headers := Some (dict (headers response))\<rparr>,
      release (served w) (sent self meth uri data w))"
  unfolding request_within_response[of srv w response, OF assms(1)]
  using assms(2) by (auto simp: branches_def)

lemma request_within_subscript_raises:
  assumes "srv (served w) = Inr response"
    and "status_code response = 200" "\<not> truthy (content_length response)"
    and "item response ''transfer-encoding'' = Inl e"
  shows "request_within frames loads srv meth uri data self w =
     (Inl e, self\<lparr>self_response_headers := Some (dict (headers response))\<rparr>,
      release (served w) (sent self meth uri data w))"
  unfolding request_within_response[of srv w response, OF assms(1)]
  using assms(2-) by (auto simp: branches_def)

lemmas lookup_defs = lookup_def get_def find_key_def contains_def getitem_def

text \<open>
  The index of the sample service, fetched: a response with status 200, the header
  \<^verbatim>\<open>Content-Location: http://svc/db/data/\<close> and a body that decodes to a dictionary.
\<close>

lemma sample_index_present: "self_index sample_resource = PNone"
  by (simp add: sample_resource_def)

lemma sample_index_fetch:
  "get 5 sample_loads
     (script [] (reply 200 [(''content-location'', ''http://svc/db/data/'')] (Some 27) sample_index_text))
     (self_uri sample_resource) sample_resource start =
   (Inr (PDict [(''node'', PStr ''http://svc/node'')]),
         sample_resource\<lparr>self_response_headers := Some [(''content-location'', ''http://svc/db/data/'')]\<rparr>,
         \<lparr>served = 1,
          trace = [Request ''GET'' (PStr ''http://svc/'') None [(''Accept'', ''application/json'')],
                   Read 0, Release 0]\<rparr>)"
  by (simp add: get_def request_within_response run_defs)

text \<open>
  Claim C6, amended. For a resource whose index is \<^verbatim>\<open>None\<close>, a lookup first issues a
  \<^verbatim>\<open>GET\<close> against the resource's own URI, whatever comes of it; when the answer to it is
  not a redirect this is the only request of the lookup. If the fetch returns a value
  other than \<^verbatim>\<open>None\<close>, that value becomes the index and is what the key is looked up in,
  and every later lookup, for any key and in any world, looks the key up in it, issues
  no request and leaves the resource as it is. A key for which the membership test on
  the index is false fails with \<^verbatim>\<open>KeyError\<close> carrying the key.
\<close>

theorem lookup_caches_index:
  assumes "self_index self = PNone"
  shows "\<exists>res self' w' es.
     lookup frames loads srv key self w = (res, self', w') \<and>
     trace w' =
       trace w @ Request ''GET'' (self_uri self) None [(''Accept'', self_content_type self)] # es \<and>
     (\<not> is_redirect (srv (served w)) \<longrightarrow> served w' = Suc (served w) \<and> \<not> list_ex is_request es) \<and>
     (\<forall>v. fst (get frames loads srv (self_uri self) self w) = Inr v \<and> v \<noteq> PNone \<longrightarrow>
        res = find_key v key \<and> self_index self' = v \<and>
        (contains v key = Inr False \<longrightarrow> res = Inl (KeyError (PStr key))) \<and>
        (\<forall>frames' key' w''.
           lookup frames' loads srv key' self' w'' = (find_key v key', self', w'') \<and>
           (contains v key' = Inr False \<longrightarrow>
              lookup frames' loads srv key' self' w'' = (Inl (KeyError (PStr key')), self', w''))))"
proof -
  obtain fetched self1 w1 where
    g: "get frames loads srv (self_uri self) self w = (fetched, self1, w1)"
    by (cases "get frames loads srv (self_uri self) self w")
  note r = g[unfolded get_def]
  have "snd (snd (lookup frames loads srv key self w)) = w1"
    unfolding lookup_fetch[OF assms g]
    by (auto split: sum.splits option.splits)
  then obtain res self' where l: "lookup frames loads srv key self w = (res, self', w1)"
    by (cases "lookup frames loads srv key self w") auto
  from request_within_trace[OF r] obtain es where
    es: "trace w1 = trace w @ issued self ''GET'' (self_uri self) None # es"
    by auto
  have one: "served w1 = Suc (served w) \<and> \<not> list_ex is_request es"
    if "\<not> is_redirect (srv (served w))"
    using request_within_single[OF that r] es by auto
  have cached: "res = find_key v key \<and> self_index self' = v \<and>
        (contains v key = Inr False \<longrightarrow> res = Inl (KeyError (PStr key))) \<and>
        (\<forall>frames' key' w''.
           lookup frames' loads srv key' self' w'' = (find_key v key', self', w'') \<and>
           (contains v key' = Inr False \<longrightarrow>
              lookup frames' loads srv key' self' w'' = (Inl (KeyError (PStr key')), self', w'')))"
    if v: "fetched = Inr v" "v \<noteq> PNone" for v
  proof -
    from request_within_last_response[OF r[unfolded v(1)]] obtain hs where
      hs: "self_response_headers self1 = Some hs"
      by auto
    have a: "res = find_key v key" and i: "self_index self' = v"
      using l unfolding lookup_fetch[OF assms g] v(1)
      by (auto simp: hs split: option.splits)
    have again: "lookup frames' loads srv key' self' w'' = (find_key v key', self', w'')"
      for frames' key' w''
      using lookup_cached[of self' frames' loads srv key' w''] i v(2) by simp
    show ?thesis
      using a i again find_key_absent by simp
  qed
  have t: "trace w1 =
      trace w @ Request ''GET'' (self_uri self) None [(''Accept'', self_content_type self)] # es"
    using es by (simp add: issued_get)
  have c: "\<forall>v. fst (get frames loads srv (self_uri self) self w) = Inr v \<and> v \<noteq> PNone \<longrightarrow>
        res = find_key v key \<and> self_index self' = v \<and>
        (contains v key = Inr False \<longrightarrow> res = Inl (KeyError (PStr key))) \<and>
        (\<forall>frames' key' w''.
           lookup frames' loads srv key' self' w'' = (find_key v key', self', w'') \<and>
           (contains v key' = Inr False \<longrightarrow>
              lookup frames' loads srv key' self' w'' = (Inl (KeyError (PStr key')), self', w'')))"
  proof (intro allI impI)
    fix v
    assume "fst (get frames loads srv (self_uri self) self w) = Inr v \<and> v \<noteq> PNone"
    then have "fetched = Inr v" "v \<noteq> PNone"
      by (simp_all add: g)
    from cached[OF this]
    show "res = find_key v key \<and> self_index self' = v \<and>
        (contains v key = Inr False \<longrightarrow> res = Inl (KeyError (PStr key))) \<and>
        (\<forall>frames' key' w''.
           lookup frames' loads srv key' self' w'' = (find_key v key', self', w'') \<and>
           (contains v key' = Inr False \<longrightarrow>
              lookup frames' loads srv key' self' w'' = (Inl (KeyError (PStr key')), self', w'')))" .
  qed
  from l t one c show ?thesis
    by blast
qed

text \<open>
  The first lookup fetches the index with one \<^verbatim>\<open>GET\<close> and finds the key; a second one, for
  a key that is absent, leaves resource and world untouched and fails with \<^verbatim>\<open>KeyError\<close>.
\<close>

theorem lookup_caches_index_witness:
  "lookup 5 sample_loads
     (script [] (reply 200 [(''content-location'', ''http://svc/db/data/'')] (Some 27) sample_index_text))
     ''node'' sample_resource start =
   (Inr (PStr ''http://svc/node''),
         sample_resource\<lparr>self_response_headers := Some [(''content-location'', ''http://svc/db/data/'')],
                         self_index := PDict [(''node'', PStr ''http://svc/node'')],
                         self_uri := PStr ''http://svc/db/data/''\<rparr>,
         \<lparr>served = 1,
          trace = [Request ''GET'' (PStr ''http://svc/'') None [(''Accept'', ''application/json'')],
                   Read 0, Release 0]\<rparr>) \<and>
   lookup 5 sample_loads
     (script [] (reply 200 [(''content-location'', ''http://svc/db/data/'')] (Some 27) sample_index_text))
     ''relationship''
     (sample_resource\<lparr>self_response_headers := Some [(''content-location'', ''http://svc/db/data/'')],
                      self_index := PDict [(''node'', PStr ''http://svc/node'')],
                      self_uri := PStr ''http://svc/db/data/''\<rparr>)
     \<lparr>served = 1,
      trace = [Request ''GET'' (PStr ''http://svc/'') None [(''Accept'', ''application/json'')],
               Read 0, Release 0]\<rparr> =
   (Inl (KeyError (PStr ''relationship'')),
         sample_resource\<lparr>self_response_headers := Some [(''content-location'', ''http://svc/db/data/'')],
                         self_index := PDict [(''node'', PStr ''http://svc/node'')],
                         self_uri := PStr ''http://svc/db/data/''\<rparr>,
         \<lparr>served = 1,
          trace = [Request ''GET'' (PStr ''http://svc/'') None [(''Accept'', ''application/json'')],
                   Read 0, Release 0]\<rparr>)"
proof -
  let ?srv = "script [] (reply 200 [(''content-location'', ''http://svc/db/data/'')] (Some 27) sample_index_text)"
  let ?v = "PDict [(''node'', PStr ''http://svc/node'')]"
  let ?w1 = "\<lparr>served = 1,
             trace = [Request ''GET'' (PStr ''http://svc/'') None [(''Accept'', ''application/json'')],
                      Read 0, Release 0]\<rparr>"
  have f: "fst (get 5 sample_loads ?srv (self_uri sample_resource) sample_resource start) = Inr ?v \<and>
     ?v \<noteq> PNone"
    by (simp add: sample_index_fetch)
  from lookup_caches_index [OF sample_index_present, of 5 sample_loads ?srv "''node''" start] f
  obtain res self' w' where
    first: "lookup 5 sample_loads ?srv ''node'' sample_resource start = (res, self', w')"
    and res: "res = find_key ?v ''node''"
    and later: "\<And>frames' key' w''. contains ?v key' = Inr False \<Longrightarrow>
      lookup frames' sample_loads ?srv key' self' w'' = (Inl (KeyError (PStr key')), self', w'')"
    by blast
  have e: "lookup 5 sample_loads ?srv ''node'' sample_resource start =
    (find_key ?v ''node'',
     sample_resource\<lparr>self_response_headers := Some [(''content-location'', ''http://svc/db/data/'')],
                    self_index := ?v, self_uri := PStr ''http://svc/db/data/''\<rparr>, ?w1)"
    by (simp add: lookup_fetch[OF sample_index_present sample_index_fetch])
  have self': "self' =
    sample_resource\<lparr>self_response_headers := Some [(''content-location'', ''http://svc/db/data/'')],
                    self_index := ?v, self_uri := PStr ''http://svc/db/data/''\<rparr>"
    and w': "w' = ?w1"
    using first unfolding e by simp_all
  have found: "find_key ?v ''node'' = Inr (PStr ''http://svc/node'')"
    by (simp add: find_key_def contains_def getitem_def)
  have missing: "contains ?v ''relationship'' = Inr False"
    by (simp add: contains_def)
  show ?thesis
    using first later[OF missing, of 5 ?w1] found res unfolding self' w' by simp
qed

text \<open>
  As claim C6 is written, every lookup after the first reuses the cached index without
  a new \<^verbatim>\<open>GET\<close>. When the fetch is answered with status 204 it returns \<^verbatim>\<open>None\<close>, the index
  stays \<^verbatim>\<open>None\<close>, and the second lookup issues the \<^verbatim>\<open>GET\<close> again: two requests in the trace.
\<close>

theorem lookup_refetch_counterexample:
  "lookup 5 sample_loads (script [] (reply 204 [] None '''')) ''node'' sample_resource start =
   (Inl TypeError, sample_resource\<lparr>self_response_headers := Some [], self_index := PNone\<rparr>,
         \<lparr>served = 1,
          trace = [Request ''GET'' (PStr ''http://svc/'') None [(''Accept'', ''application/json'')],
                   Release 0]\<rparr>) \<and>
   lookup 5 sample_loads (script [] (reply 204 [] None '''')) ''node''
     (sample_resource\<lparr>self_response_headers := Some [], self_index := PNone\<rparr>)
     \<lparr>served = 1,
      trace = [Request ''GET'' (PStr ''http://svc/'') None [(''Accept'', ''application/json'')],
               Release 0]\<rparr> =
   (Inl TypeError, sample_resource\<lparr>self_response_headers := Some [], self_index := PNone\<rparr>,
         \<lparr>served = 2,
          trace = [Request ''GET'' (PStr ''http://svc/'') None [(''Accept'', ''application/json'')],
                   Release 0,
                   Request ''GET'' (PStr ''http://svc/'') None [(''Accept'', ''application/json'')],
                   Release 1]\<rparr>)"
  by (simp add: lookup_defs request_within_response run_defs)

section \<open>Content-Location and the fields of the resource\<close>





section \<open>A fetch that returns nothing\<close>

text \<open>
  When the fetch returns \<^verbatim>\<open>None\<close>, which it does for status 204 and for status 200 with a
  content length that is absent or zero and a transfer encoding that is read and is not
  \<^verbatim>\<open>chunked\<close>, the lookup raises \<^verbatim>\<open>TypeError\<close> (the membership test on \<^verbatim>\<open>None\<close>), it has
  issued exactly one request, the index is still \<^verbatim>\<open>None\<close>, and every next lookup, for any
  key, first issues a \<^verbatim>\<open>GET\<close> against the resource's URI again.
\<close>

lemma lookup_fetch_returns_nothing:
  assumes "self_index self = PNone"
    and "srv (served w) = Inr response"
    and "status_code response = 204 \<or>
      (status_code response = 200 \<and> \<not> truthy (content_length response) \<and>
       (\<exists>te. item response ''transfer-encoding'' = Inr te \<and> te \<noteq> PStr ''chunked''))"
  shows "\<exists>self' w'. lookup frames loads srv key self w = (Inl TypeError, self', w') \<and>
     self_index self' = PNone \<and> served w' = Suc (served w) \<and>
     (\<forall>frames' key'. \<exists>es. trace (snd (snd (lookup frames' loads srv key' self' w'))) =
        trace w' @ Request ''GET'' (self_uri self') None [(''Accept'', self_content_type self')] # es)"
proof -
  let ?self1 = "self\<lparr>self_response_headers := Some (dict (headers response))\<rparr>"
  let ?w1 = "release (served w) (sent self ''GET'' (self_uri self) None w)"
  have g: "get frames loads srv (self_uri self) self w = (Inr PNone, ?self1, ?w1)"
    unfolding get_def by (rule request_within_returns_nothing[of srv w response, OF assms(2,3)])
  define self' where "self' =
    (case map_of (dict (headers response)) ''content-location'' of
       Some x \<Rightarrow> ?self1\<lparr>self_index := PNone, self_uri := PStr x\<rparr>
     | None \<Rightarrow> ?self1\<lparr>self_index := PNone\<rparr>)"
  have l: "lookup frames loads srv key self w = (Inl TypeError, self', ?w1)"
    unfolding lookup_fetch[OF assms(1) g] self'_def by (simp add: find_key_None)
  have i: "self_index self' = PNone"
    by (simp add: self'_def split: option.splits)
  have s: "served ?w1 = Suc (served w)"
    by (simp add: release_def sent_def)
  show ?thesis
    using l i s lookup_fetches_first[OF i] by blast
qed

text \<open>
  When the fetch is answered with status 200, a content length that is absent or zero,
  and \<^verbatim>\<open>response['transfer-encoding']\<close> raises, the lookup raises that exception; the index
  is still \<^verbatim>\<open>None\<close>.
\<close>

lemma lookup_fetch_subscript_raises:
  assumes "self_index self = PNone"
    and "srv (served w) = Inr response"
    and "status_code response = 200" "\<not> truthy (content_length response)"
    and "item response ''transfer-encoding'' = Inl e"
  shows "lookup frames loads srv key self w =
     (Inl e, self\<lparr>self_response_headers := Some (dict (headers response))\<rparr>,
      release (served w) (sent self ''GET'' (self_uri self) None w))"
proof -
  have g: "get frames loads srv (self_uri self) self w =
     (Inl e, self\<lparr>self_response_headers := Some (dict (headers response))\<rparr>,
      release (served w) (sent self ''GET'' (self_uri self) None w))"
    unfolding get_def
    by (rule request_within_subscript_raises[of srv w response, OF assms(2-)])
  show ?thesis
    unfolding lookup_fetch[OF assms(1) g] by simp
qed

text \<open>
  Claim C10 says that a fetch answered with status 204, or with status 200 and an empty
  body, returns nothing, so that the lookup raises \<^verbatim>\<open>TypeError\<close>, not a key-not-found
  error, and the next lookup fetches again. For status 204 this is what happens: the
  first two runs below are a lookup answered with 204 and the next lookup, whose \<^verbatim>\<open>GET\<close>
  is in the trace. For status 200 and a response with no content length and no transfer
  encoding, the third run, it is not: the test \<^verbatim>\<open>response['transfer-encoding'] ==
  'chunked'\<close> raises \<^verbatim>\<open>KeyError\<close> for the header that is not there, the \<^verbatim>\<open>else: return None\<close>
  of the source is not reached, and the lookup raises \<^verbatim>\<open>KeyError\<close>, a key-not-found
  error for the name of the header.
\<close>

theorem lookup_on_empty_ok_raises_key_error:
  "lookup 5 sample_loads
     (script [reply 204 [] None ''''] (reply 200 [] (Some 27) sample_index_text))
     ''node'' sample_resource start =
   (Inl TypeError, sample_resource\<lparr>self_response_headers := Some [], self_index := PNone\<rparr>,
         \<lparr>served = 1,
          trace = [Request ''GET'' (PStr ''http://svc/'') None [(''Accept'', ''application/json'')],
                   Release 0]\<rparr>) \<and>
   lookup 5 sample_loads
     (script [reply 204 [] None ''''] (reply 200 [] (Some 27) sample_index_text))
     ''node''
     (sample_resource\<lparr>self_response_headers := Some [], self_index := PNone\<rparr>)
     \<lparr>served = 1,
      trace = [Request ''GET'' (PStr ''http://svc/'') None [(''Accept'', ''application/json'')],
               Release 0]\<rparr> =
   (Inr (PStr ''http://svc/node''),
         sample_resource\<lparr>self_response_headers := Some [],
                         self_index := PDict [(''node'', PStr ''http://svc/node'')]\<rparr>,
         \<lparr>served = 2,
          trace = [Request ''GET'' (PStr ''http://svc/'') None [(''Accept'', ''application/json'')],
                   Release 0,
                   Request ''GET'' (PStr ''http://svc/'') None [(''Accept'', ''application/json'')],
                   Read 1, Release 1]\<rparr>) \<and>
   status_code (reply 200 [] None '''') = 200 \<and>
   content_length (reply 200 [] None '''') = None \<and>
   headers (reply 200 [] None '''') = [] \<and>
   body (reply 200 [] None '''') = [] \<and>
   lookup 5 sample_loads (script [] (reply 200 [] None '''')) ''node'' sample_resource start =
   (Inl (KeyError (PStr ''transfer-encoding'')),
         sample_resource\<lparr>self_response_headers := Some []\<rparr>,
         \<lparr>served = 1,
          trace = [Request ''GET'' (PStr ''http://svc/'') None [(''Accept'', ''application/json'')],
                   Release 0]\<rparr>)"
proof -
  let ?srv = "script [reply 204 [] None ''''] (reply 200 [] (Some 27) sample_index_text)"
  let ?w1 = "\<lparr>served = 1,
          trace = [Request ''GET'' (PStr ''http://svc/'') None [(''Accept'', ''application/json'')],
                   Release 0]\<rparr>"
  have a: "lookup 5 sample_loads ?srv ''node'' sample_resource start =
    (Inl TypeError, sample_resource\<lparr>self_response_headers := Some [], self_index := PNone\<rparr>, ?w1)"
    by (simp add: lookup_defs request_within_response run_defs)
  have b: "lookup 5 sample_loads ?srv ''node''
     (sample_resource\<lparr>self_response_headers := Some [], self_index := PNone\<rparr>) ?w1 =
   (Inr (PStr ''http://svc/node''),
         sample_resource\<lparr>self_response_headers := Some [],
                         self_index := PDict [(''node'', PStr ''http://svc/node'')]\<rparr>,
         \<lparr>served = 2,
          trace = [Request ''GET'' (PStr ''http://svc/'') None [(''Accept'', ''application/json'')],
                   Release 0,
                   Request ''GET'' (PStr ''http://svc/'') None [(''Accept'', ''application/json'')],
                   Read 1, Release 1]\<rparr>)"
    by (simp add: lookup_defs request_within_response run_defs)
  have c: "status_code (reply 200 [] None '''') = 200 \<and>
     content_length (reply 200 [] None '''') = None \<and>
     headers (reply 200 [] None '''') = [] \<and>
     body (reply 200 [] None '''') = []"
    by (simp add: reply_def)
  have d: "lookup 5 sample_loads (script [] (reply 200 [] None '''')) ''node'' sample_resource start =
   (Inl (KeyError (PStr ''transfer-encoding'')),
         sample_resource\<lparr>self_response_headers := Some []\<rparr>,
         \<lparr>served = 1,
          trace = [Request ''GET'' (PStr ''http://svc/'') None [(''Accept'', ''application/json'')],
                   Release 0]\<rparr>)"
    by (simp add: lookup_defs request_within_response run_defs)
  from a b c d show ?thesis
    by simp
qed

end
